theory Spec2Isabelle
  imports Main
begin

text \<open>
  The parts of the UI apps SDK that route events between a framed application and its
  host: the event gate with its memoized feature registry, key validation, the Deferred
  that holds the application context, and the client facade.
\<close>

section \<open>JavaScript values and thrown errors\<close>

text \<open>
  Payloads crossing the frame boundary (\<open>any\<close> in the TypeScript source) are JSON-like
  values. Numbers are kept as integers plus \<open>NaN\<close>: the only operation the modelled
  code applies to a number is the truthiness test, where every other double behaves like a
  non-zero integer.
\<close>

datatype jsval =
    JUndefined
  | JNull
  | JBool bool
  | JNum int
  | JNaN
  | JStr string
  | JArr "jsval list"
  | JObj "(string \<times> jsval) list"

text \<open>What a \<open>throw\<close> (or the runtime) raises.\<close>

datatype error = TypeError | Error string

text \<open>\<open>!!v\<close>: the falsy values are undefined, null, false, 0, NaN and the empty string.\<close>

fun truthy :: "jsval \<Rightarrow> bool" where
  "truthy JUndefined = False"
| "truthy JNull = False"
| "truthy (JBool b) = b"
| "truthy (JNum n) = (n \<noteq> 0)"
| "truthy JNaN = False"
| "truthy (JStr s) = (s \<noteq> [])"
| "truthy (JArr xs) = True"
| "truthy (JObj fs) = True"

text \<open>
  \<open>v.key\<close>: reading a property of undefined or null raises a TypeError; a primitive or
  an array has no property of that name and reads as undefined; an object reads the field,
  or undefined when it has none.
\<close>

fun getProp :: "jsval \<Rightarrow> string \<Rightarrow> error + jsval" where
  "getProp JUndefined k = Inl TypeError"
| "getProp JNull k = Inl TypeError"
| "getProp (JObj fs) k = (case map_of fs k of None \<Rightarrow> Inr JUndefined | Some v \<Rightarrow> Inr v)"
| "getProp v k = Inr JUndefined"

section \<open>utils: memoize, the feature registry and the event gate\<close>

text \<open>
  \<open>memoize\<close> closes over two variables, \<open>executed\<close> and \<open>value\<close>; \<open>value\<close> is
  declared without an initialiser, which is \<open>None\<close> here. The getter reads module-level
  state (the registry), so it is a function of the environment at the time of the call.
\<close>

record 'a memo =
  executed :: bool
  "value" :: "'a option"

definition memoize :: "'a memo" where
  "memoize = \<lparr>executed = False, value = None\<rparr>"

definition memoized :: "('env \<Rightarrow> 'a) \<Rightarrow> 'env \<Rightarrow> 'a memo \<Rightarrow> 'a option \<times> 'a memo" where
  "memoized getter env m =
     (let m' = (if \<not> executed m then m\<lparr>value := Some (getter env), executed := True\<rparr> else m)
      in (value m', m'))"

record ('e, 'f) FeatureDefinition =
  ftype :: 'f
  events :: "'e list"

definition isFeatureEnabled :: "'f \<Rightarrow> 'f list \<Rightarrow> bool" where
  "isFeatureEnabled feature enabledFeatures = (feature \<in> set enabledFeatures)"

text \<open>The body of the inner \<open>forEach\<close>: create the entry if missing, then add the type.\<close>

definition addFeatureType :: "'f \<Rightarrow> 'e \<Rightarrow> ('e \<rightharpoonup> 'f set) \<Rightarrow> ('e \<rightharpoonup> 'f set)" where
  "addFeatureType t e featureTypesByEvent =
     (let m = (case featureTypesByEvent e of None \<Rightarrow> featureTypesByEvent(e \<mapsto> {}) | Some _ \<Rightarrow> featureTypesByEvent)
      in case m e of None \<Rightarrow> m | Some s \<Rightarrow> m(e \<mapsto> insert t s))"

text \<open>The getter handed to \<open>memoize\<close>; \<open>features\<close> is the registry it reads.\<close>

definition featureTypesByEventGetter :: "('e, 'f) FeatureDefinition list \<Rightarrow> ('e \<rightharpoonup> 'f set)" where
  "featureTypesByEventGetter features =
     fold (\<lambda>feature m. fold (addFeatureType (ftype feature)) (events feature) m) features Map.empty"

definition getFeatureTypesByEvent ::
  "('e, 'f) FeatureDefinition list \<Rightarrow> ('e \<rightharpoonup> 'f set) memo \<Rightarrow> ('e \<rightharpoonup> 'f set) option \<times> ('e \<rightharpoonup> 'f set) memo" where
  "getFeatureTypesByEvent features m = memoized featureTypesByEventGetter features m"

text \<open>
  \<open>enabledEvents\<close> (the always-enabled set) and \<open>features\<close> are module constants that
  the source imports; both are parameters. Reading \<open>.get\<close> of an undefined map would
  raise a TypeError.
\<close>

definition isEventEnabled ::
  "'e set \<Rightarrow> ('e, 'f) FeatureDefinition list \<Rightarrow> 'e \<Rightarrow> 'f list \<Rightarrow> ('e \<rightharpoonup> 'f set) memo
     \<Rightarrow> (error + bool) \<times> ('e \<rightharpoonup> 'f set) memo" where
  "isEventEnabled enabledEvents features event enabledFeatures m =
     (if event \<in> enabledEvents then (Inr True, m)
      else case getFeatureTypesByEvent features m of
        (None, m') \<Rightarrow> (Inl TypeError, m')
      | (Some featureTypesByEvent, m') \<Rightarrow>
          (case featureTypesByEvent event of
             None \<Rightarrow> (Inr False, m')
           | Some enablingFeatures \<Rightarrow>
               (Inr (list_ex (\<lambda>feature. feature \<in> enablingFeatures) enabledFeatures), m')))"

definition isDefinitionWithKey :: "jsval \<Rightarrow> error + bool" where
  "isDefinitionWithKey defenition =
     (case getProp defenition ''key'' of Inl e \<Rightarrow> Inl e | Inr v \<Rightarrow> Inr (truthy v))"

text \<open>The message of the thrown error; \<open>CHR 0x22\<close> is the double quote around \<open>.key\<close>.\<close>

definition missingKeyMessage :: string where
  "missingKeyMessage = ''Definition missing required field '' @ [CHR 0x22] @ ''.key'' @ [CHR 0x22]"

definition validateKey :: "jsval \<Rightarrow> error + bool" where
  "validateKey definitionOrKey =
     (case definitionOrKey of
        JStr s \<Rightarrow> Inr (length s > 0)
      | _ \<Rightarrow>
        (case isDefinitionWithKey definitionOrKey of
           Inl e \<Rightarrow> Inl e
         | Inr b \<Rightarrow>
             if \<not> b then Inl (Error missingKeyMessage)
             else Inr True))"

section \<open>utils: Deferred\<close>

text \<open>
  A promise is pending or settled. Promises live in a store and are named by their
  address, so that the promise a caller obtained earlier can be read in a later state.
  A \<open>Deferred\<close> is its promise together with the two resolving functions of that
  promise; it is identified with the promise's address. The resolving functions of a
  JavaScript promise act only while it is pending. The values resolved here are plain
  data, never thenables.
\<close>

datatype 'a promise = Pending | Fulfilled 'a | Rejected 'a

type_synonym addr = nat

record 'a store =
  cell :: "addr \<Rightarrow> 'a promise"
  fresh :: addr

definition emptyStore :: "'a store" where
  "emptyStore = \<lparr>cell = (\<lambda>a. Pending), fresh = 0\<rparr>"

definition "defer" :: "'a store \<Rightarrow> addr \<times> 'a store" where
  "defer st = (fresh st, st\<lparr>cell := (cell st)(fresh st := Pending), fresh := Suc (fresh st)\<rparr>)"

definition resolve :: "addr \<Rightarrow> 'a \<Rightarrow> 'a store \<Rightarrow> 'a store" where
  "resolve d t st =
     (case cell st d of Pending \<Rightarrow> st\<lparr>cell := (cell st)(d := Fulfilled t)\<rparr> | _ \<Rightarrow> st)"

definition reject :: "addr \<Rightarrow> 'a \<Rightarrow> 'a store \<Rightarrow> 'a store" where
  "reject d t st =
     (case cell st d of Pending \<Rightarrow> st\<lparr>cell := (cell st)(d := Rejected t)\<rparr> | _ \<Rightarrow> st)"

text \<open>\<open>await p\<close>: nothing while \<open>p\<close> is pending, then its value, or its reason thrown.\<close>

definition awaitPromise :: "'a store \<Rightarrow> addr \<Rightarrow> ('a + 'a) option" where
  "awaitPromise st p =
     (case cell st p of Pending \<Rightarrow> None | Fulfilled v \<Rightarrow> Some (Inr v) | Rejected r \<Rightarrow> Some (Inl r))"

text \<open>A run of calls to resolving functions: \<open>(True, d, t)\<close> is \<open>resolve\<close> of the
  Deferred \<open>d\<close> with \<open>t\<close>, \<open>(False, d, t)\<close> is its \<open>reject\<close>.\<close>

definition settleCalls :: "(bool \<times> addr \<times> 'a) list \<Rightarrow> 'a store \<Rightarrow> 'a store" where
  "settleCalls calls st =
     fold (\<lambda>(isResolve, d, t) st. if isResolve then resolve d t st else reject d t st) calls st"

section \<open>client: the facade\<close>

text \<open>
  The capability managers are instances of classes the facade imports. The facade reads
  their two event lists and calls three of their methods; the methods are fields here,
  acting on \<open>'w\<close>, everything a manager can reach (its subscriptions, the transport).
  A method may throw. The unsubscribe function that \<open>subscribeHandler\<close> returns is its
  effect on \<open>'w\<close>. The managers are handed the handshake and the context Deferred at
  construction; they are taken to await them only, so neither is part of \<open>'w\<close>.
\<close>

record ('e, 'h, 'w) CapabilityManager =
  eventsToSubscribe :: "'e list"
  eventsToTrigger :: "'e list"
  manager_subscribeHandler :: "'e \<Rightarrow> 'h \<Rightarrow> 'w \<Rightarrow> (error + ('w \<Rightarrow> 'w)) \<times> 'w"
  manager_triggerEvent :: "'e \<Rightarrow> jsval \<Rightarrow> 'w \<Rightarrow> (error + unit) \<times> 'w"
  manager_handleEvent :: "'e \<Rightarrow> jsval \<Rightarrow> 'w \<Rightarrow> (error + unit) \<times> 'w"

text \<open>The calls made on the logger, in order.\<close>

datatype logCall = LoggerError string | LoggerLog string

text \<open>
  The client object with the state it reaches: \<open>handshake\<close> is the state of the
  transport's handshake promise (its value is not used by the methods modelled),
  \<open>context\<close> the Deferred the field holds, \<open>promises\<close> the store,
  \<open>awaitingHandshake\<close> the contexts of the \<open>init\<close> calls suspended at
  \<open>await this.handshake\<close>, \<open>logger\<close> the calls made on the logger.
\<close>

record ('e, 'h, 'w) DDClient =
  handshake :: "unit promise"
  "context" :: addr
  capabilityManagers :: "('e, 'h, 'w) CapabilityManager list"
  promises :: "jsval store"
  awaitingHandshake :: "jsval list"
  logger :: "logCall list"
  world :: 'w

text \<open>The constructor: a fresh Deferred, the handshake begun, the managers instantiated.
  The methods that \<open>applyAdditionalMethods\<close> grafts onto the client are not modelled.\<close>

definition new_DDClient :: "('e, 'h, 'w) CapabilityManager list \<Rightarrow> 'w \<Rightarrow> ('e, 'h, 'w) DDClient" where
  "new_DDClient managers w =
     (case defer emptyStore of
        (d, st) \<Rightarrow>
          \<lparr>handshake = Pending, context = d, capabilityManagers = managers, promises = st,
           awaitingHandshake = [], logger = [], world = w\<rparr>)"

definition getManagerByEventToSubscribeType ::
  "('e, 'h, 'w) DDClient \<Rightarrow> 'e \<Rightarrow> ('e, 'h, 'w) CapabilityManager option" where
  "getManagerByEventToSubscribeType c eventType =
     List.find (\<lambda>manager. eventType \<in> set (eventsToSubscribe manager)) (capabilityManagers c)"

definition getManagerByEventToTriggerType ::
  "('e, 'h, 'w) DDClient \<Rightarrow> 'e \<Rightarrow> ('e, 'h, 'w) CapabilityManager option" where
  "getManagerByEventToTriggerType c eventType =
     List.find (\<lambda>manager. eventType \<in> set (eventsToTrigger manager)) (capabilityManagers c)"

definition on ::
  "'e \<Rightarrow> 'h \<Rightarrow> ('e, 'h, 'w) DDClient \<Rightarrow> (error + ('w \<Rightarrow> 'w)) \<times> ('e, 'h, 'w) DDClient" where
  "on eventType handler c =
     (case getManagerByEventToSubscribeType c eventType of
        None \<Rightarrow> (Inr (\<lambda>w. w), c\<lparr>logger := logger c @ [LoggerError ''Unknown event type'']\<rparr>)
      | Some manager \<Rightarrow>
          (case manager_subscribeHandler manager eventType handler (world c) of
             (r, w') \<Rightarrow> (r, c\<lparr>world := w'\<rparr>)))"

text \<open>The default parameter \<open>data = {}\<close> applies when the argument is undefined.\<close>

definition triggerEvent ::
  "'e \<Rightarrow> jsval \<Rightarrow> ('e, 'h, 'w) DDClient \<Rightarrow> (error + unit) \<times> ('e, 'h, 'w) DDClient" where
  "triggerEvent eventType dataArg c =
     (let data = (if dataArg = JUndefined then JObj [] else dataArg)
      in case getManagerByEventToTriggerType c eventType of
           None \<Rightarrow> (Inr (), c\<lparr>logger := logger c @ [LoggerError ''Unknown event type'']\<rparr>)
         | Some manager \<Rightarrow>
             (case manager_triggerEvent manager eventType data (world c) of
                (r, w') \<Rightarrow> (r, c\<lparr>world := w'\<rparr>)))"

text \<open>\<open>getContext\<close> returns a promise that settles as \<open>this.context.promise\<close> does;
  it is identified with that promise.\<close>

definition getContext :: "('e, 'h, 'w) DDClient \<Rightarrow> addr" where
  "getContext c = context c"

text \<open>\<open>init\<close>: the statements after the \<open>await\<close>, and the call itself, which runs them
  at once when the handshake is fulfilled, waits when it is pending, and throws (doing
  nothing more) when it is rejected.\<close>

definition init_resume :: "jsval \<Rightarrow> ('e, 'h, 'w) DDClient \<Rightarrow> ('e, 'h, 'w) DDClient" where
  "init_resume ctx c =
     c\<lparr>promises := resolve (context c) ctx (promises c),
       logger := logger c @
         [LoggerLog ''dd-apps: sdk handshake: parent <-> child handshake is complete'']\<rparr>"

definition init :: "jsval \<Rightarrow> ('e, 'h, 'w) DDClient \<Rightarrow> ('e, 'h, 'w) DDClient" where
  "init ctx c =
     (case handshake c of
        Pending \<Rightarrow> c\<lparr>awaitingHandshake := awaitingHandshake c @ [ctx]\<rparr>
      | Fulfilled u \<Rightarrow> init_resume ctx c
      | Rejected u \<Rightarrow> c)"

definition handleEvent ::
  "'e \<Rightarrow> jsval \<Rightarrow> ('e, 'h, 'w) DDClient \<Rightarrow> (error + unit) \<times> ('e, 'h, 'w) DDClient" where
  "handleEvent eventType data c =
     (case getManagerByEventToSubscribeType c eventType of
        None \<Rightarrow>
          (Inr (), c\<lparr>logger := logger c @
             [LoggerError ''Could not handle event: no corresponding manager found'']\<rparr>)
      | Some manager \<Rightarrow>
          (case manager_handleEvent manager eventType data (world c) of
             (r, w') \<Rightarrow> (r, c\<lparr>world := w'\<rparr>)))"

text \<open>The handshake promise settles: the suspended \<open>init\<close> calls resume in the order
  they were made, or are abandoned when it is rejected.\<close>

definition handshakeFulfilled :: "('e, 'h, 'w) DDClient \<Rightarrow> ('e, 'h, 'w) DDClient" where
  "handshakeFulfilled c =
     (case handshake c of
        Pending \<Rightarrow> fold init_resume (awaitingHandshake c)
                     (c\<lparr>handshake := Fulfilled (), awaitingHandshake := []\<rparr>)
      | _ \<Rightarrow> c)"

definition handshakeRejected :: "('e, 'h, 'w) DDClient \<Rightarrow> ('e, 'h, 'w) DDClient" where
  "handshakeRejected c =
     (case handshake c of
        Pending \<Rightarrow> c\<lparr>handshake := Rejected (), awaitingHandshake := []\<rparr>
      | _ \<Rightarrow> c)"

text \<open>What can happen to a client, one task of the event loop each, and a run of them.\<close>

datatype ('e, 'h) event =
    HandshakeFulfilled
  | HandshakeRejected
  | HostInit jsval
  | HostHandleEvent 'e jsval
  | AppOn 'e 'h
  | AppTriggerEvent 'e jsval

fun step :: "('e, 'h) event \<Rightarrow> ('e, 'h, 'w) DDClient \<Rightarrow> ('e, 'h, 'w) DDClient" where
  "step HandshakeFulfilled c = handshakeFulfilled c"
| "step HandshakeRejected c = handshakeRejected c"
| "step (HostInit ctx) c = init ctx c"
| "step (HostHandleEvent eventType data) c = snd (handleEvent eventType data c)"
| "step (AppOn eventType handler) c = snd (on eventType handler c)"
| "step (AppTriggerEvent eventType data) c = snd (triggerEvent eventType data c)"

definition run :: "('e, 'h) event list \<Rightarrow> ('e, 'h, 'w) DDClient \<Rightarrow> ('e, 'h, 'w) DDClient" where
  "run es c = fold step es c"

section \<open>Parts modelled from the spec\<close>

text \<open>The two kinds of error a capability operation raises, in the spec's names.\<close>

datatype capabilityError = ValidationError error | CapabilityNotEnabledError

text \<open>
  Modelled from the spec: the modal capability's \<open>open\<close> operation
  (\<open>DDModalClient.open\<close>), of which the sources hold only the tests and
  \<open>validateKey\<close>. The spec: each domain "validates its own request/response payload
  shape before sending (e.g. requiring a non-empty key field) and fails with a
  ValidationError before any network activity if the payload is malformed"; a call "with
  required feature absent from context's feature set rejects with
  CapabilityNotEnabledError; same call with feature present and valid payload succeeds
  and forwards exactly the expected (eventType, data) pair to the transport". Validation
  is \<open>validateKey\<close>. \<open>features\<close> is the feature list of the resolved context,
  \<open>requests\<close> the calls made so far on the transport's request primitive, \<open>respond\<close>
  the host's answer; the request type and the feature are parameters.
\<close>

definition modal_open ::
  "'r \<Rightarrow> 'f \<Rightarrow> 'f list \<Rightarrow> ('r \<Rightarrow> jsval \<Rightarrow> jsval) \<Rightarrow> jsval \<Rightarrow> ('r \<times> jsval) list
     \<Rightarrow> (capabilityError + jsval) \<times> ('r \<times> jsval) list" where
  "modal_open OPEN_MODAL MODALS features respond definitionOrKey requests =
     (case validateKey definitionOrKey of
        Inl e \<Rightarrow> (Inl (ValidationError e), requests)
      | Inr valid \<Rightarrow>
          if \<not> valid then (Inl (ValidationError (Error missingKeyMessage)), requests)
          else if \<not> isFeatureEnabled MODALS features then (Inl CapabilityNotEnabledError, requests)
          else (let data = JObj [(''definition'', definitionOrKey)]
                in (Inr (respond OPEN_MODAL data), requests @ [(OPEN_MODAL, data)])))"

section \<open>Test values\<close>

text \<open>\<open>mockContext\<close> of the test utilities; the value of the feature type is a parameter.\<close>

definition mockContext :: "jsval \<Rightarrow> jsval" where
  "mockContext DASHBOARD_COG_MENU =
     JObj [(''app'', JObj [
       (''currentUser'', JObj [(''id'', JNum 45678), (''name'', JStr ''User''),
                               (''handle'', JStr ''user@email.com'')]),
       (''org'', JObj [(''id'', JNum 12345), (''name'', JStr ''Corporate overlord'')]),
       (''features'', JArr [DASHBOARD_COG_MENU]),
       (''debug'', JBool True)])]"

text \<open>
  Two capability managers and a client built from them, for concrete instances of the
  theorems below. Handlers are named by strings; the managers record what they are asked
  to do as a list of (event type, data) pairs.
\<close>

definition modalManager :: "(string, string, (string \<times> jsval) list) CapabilityManager" where
  "modalManager =
     \<lparr>eventsToSubscribe = [''modal_close''],
      eventsToTrigger = [''open_modal''],
      manager_subscribeHandler = (\<lambda>e h w. (Inr (removeAll (e, JStr h)), w @ [(e, JStr h)])),
      manager_triggerEvent = (\<lambda>e d w. (Inr (), w @ [(e, d)])),
      manager_handleEvent = (\<lambda>e d w. (Inr (), w))\<rparr>"

definition menuManager :: "(string, string, (string \<times> jsval) list) CapabilityManager" where
  "menuManager =
     \<lparr>eventsToSubscribe = [''dashboard_cog_menu_click''],
      eventsToTrigger = [''reload_frame''],
      manager_subscribeHandler = (\<lambda>e h w. (Inr (removeAll (e, JStr h)), w @ [(e, JStr h)])),
      manager_triggerEvent = (\<lambda>e d w. (Inr (), w @ [(e, d)])),
      manager_handleEvent = (\<lambda>e d w. (Inr (), w))\<rparr>"

definition exampleClient :: "(string, string, (string \<times> jsval) list) DDClient" where
  "exampleClient = new_DDClient [modalManager, menuManager] []"

text \<open>A manager whose \<open>subscribeHandler\<close> throws, and a client holding it.\<close>

definition throwingManager :: "(string, string, (string \<times> jsval) list) CapabilityManager" where
  "throwingManager =
     \<lparr>eventsToSubscribe = [''modal_close''],
      eventsToTrigger = [],
      manager_subscribeHandler = (\<lambda>e h w. (Inl TypeError, w)),
      manager_triggerEvent = (\<lambda>e d w. (Inr (), w)),
      manager_handleEvent = (\<lambda>e d w. (Inr (), w))\<rparr>"

definition throwingClient :: "(string, string, (string \<times> jsval) list) DDClient" where
  "throwingClient = new_DDClient [throwingManager] []"

section \<open>Notions used to state the properties\<close>

text \<open>
  The claim's words for a non-string argument: its \<open>key\<close> field, if it has one, and
  whether that field is absent or falsy.
\<close>

fun keyField :: "jsval \<Rightarrow> jsval option" where
  "keyField (JObj fs) = map_of fs ''key''"
| "keyField v = None"

definition keyAbsentOrFalsy :: "jsval \<Rightarrow> bool" where
  "keyAbsentOrFalsy v = (case keyField v of None \<Rightarrow> True | Some k \<Rightarrow> \<not> truthy k)"

text \<open>Successive calls: the memo cell left by a run of \<open>isEventEnabled\<close> calls, and the
  results of a run of \<open>getFeatureTypesByEvent\<close> calls, each with the registry as it is at
  the time of that call.\<close>

definition isEventEnabled_calls ::
  "'e set \<Rightarrow> ('e, 'f) FeatureDefinition list \<Rightarrow> ('e \<times> 'f list) list
     \<Rightarrow> ('e \<rightharpoonup> 'f set) memo \<Rightarrow> ('e \<rightharpoonup> 'f set) memo" where
  "isEventEnabled_calls enabledEvents features calls m =
     fold (\<lambda>(event, enabledFeatures) m. snd (isEventEnabled enabledEvents features event enabledFeatures m))
       calls m"

fun getFeatureTypesByEvent_calls ::
  "('e, 'f) FeatureDefinition list list \<Rightarrow> ('e \<rightharpoonup> 'f set) memo
     \<Rightarrow> ('e \<rightharpoonup> 'f set) option list" where
  "getFeatureTypesByEvent_calls [] m = []"
| "getFeatureTypesByEvent_calls (features # later) m =
     (case getFeatureTypesByEvent features m of
        (v, m') \<Rightarrow> v # getFeatureTypesByEvent_calls later m')"

text \<open>The features that unlock an event, read off the registry.\<close>

definition enablingSet :: "('e, 'f) FeatureDefinition list \<Rightarrow> 'e \<Rightarrow> 'f set" where
  "enablingSet fs e = {ftype d | d. d \<in> set fs \<and> e \<in> set (events d)}"

text \<open>The two states of the memo cell under a registry that does not change.\<close>

definition memoOf :: "('e, 'f) FeatureDefinition list \<Rightarrow> ('e \<rightharpoonup> 'f set) memo \<Rightarrow> bool" where
  "memoOf fs m \<longleftrightarrow>
     m = memoize \<or> m = \<lparr>executed = True, value = Some (featureTypesByEventGetter fs)\<rparr>"

text \<open>The context is pending unless the handshake is fulfilled.\<close>

definition handshakeFirst :: "('e, 'h, 'w) DDClient \<Rightarrow> bool" where
  "handshakeFirst c \<longleftrightarrow> cell (promises c) (context c) = Pending \<or> handshake c = Fulfilled ()"

section \<open>The registry and the event gate\<close>

lemma addFeatureType_lookup:
  "addFeatureType t a m e =
     (if e = a then Some (insert t (case m a of None \<Rightarrow> {} | Some s \<Rightarrow> s)) else m e)"
  by (simp add: addFeatureType_def Let_def split: option.splits)

lemma fold_addFeatureType:
  "fold (addFeatureType t) es m e =
     (if e \<in> set es then Some (insert t (case m e of None \<Rightarrow> {} | Some s \<Rightarrow> s)) else m e)"
proof (induction es arbitrary: m)
  case Nil
  show ?case by simp
next
  case (Cons a es)
  have "fold (addFeatureType t) (a # es) m e = fold (addFeatureType t) es (addFeatureType t a m) e"
    by simp
  also have "\<dots> = (if e \<in> set es
       then Some (insert t (case addFeatureType t a m e of None \<Rightarrow> {} | Some s \<Rightarrow> s))
       else addFeatureType t a m e)"
    by (rule Cons.IH)
  also have "\<dots> = (if e \<in> set (a # es)
       then Some (insert t (case m e of None \<Rightarrow> {} | Some s \<Rightarrow> s)) else m e)"
    by (auto simp: addFeatureType_lookup)
  finally show ?case .
qed

lemma fold_features:
  "fold (\<lambda>feature m. fold (addFeatureType (ftype feature)) (events feature) m) fs m e =
     (if enablingSet fs e = {} then m e
      else Some (enablingSet fs e \<union> (case m e of None \<Rightarrow> {} | Some s \<Rightarrow> s)))"
proof (induction fs arbitrary: m)
  case Nil
  show ?case by (simp add: enablingSet_def)
next
  case (Cons d fs)
  have split_set: "enablingSet (d # fs) e =
      (if e \<in> set (events d) then insert (ftype d) (enablingSet fs e) else enablingSet fs e)"
    by (auto simp: enablingSet_def)
  let ?step = "\<lambda>feature m. fold (addFeatureType (ftype feature)) (events feature) m"
  let ?m = "fold (addFeatureType (ftype d)) (events d) m"
  have "fold ?step (d # fs) m e = fold ?step fs ?m e"
    by simp
  also have "\<dots> = (if enablingSet fs e = {} then ?m e
      else Some (enablingSet fs e \<union> (case ?m e of None \<Rightarrow> {} | Some s \<Rightarrow> s)))"
    by (rule Cons.IH)
  also have "\<dots> = (if enablingSet (d # fs) e = {} then m e
      else Some (enablingSet (d # fs) e \<union> (case m e of None \<Rightarrow> {} | Some s \<Rightarrow> s)))"
    by (auto simp: fold_addFeatureType split_set split: option.splits)
  finally show ?case .
qed

lemma getter_lookup:
  "featureTypesByEventGetter fs e = (if enablingSet fs e = {} then None else Some (enablingSet fs e))"
  by (simp add: featureTypesByEventGetter_def fold_features)

lemma getFeatureTypesByEvent_memoOf:
  "memoOf fs m \<Longrightarrow> getFeatureTypesByEvent fs m =
     (Some (featureTypesByEventGetter fs), \<lparr>executed = True, value = Some (featureTypesByEventGetter fs)\<rparr>)"
  by (auto simp: memoOf_def getFeatureTypesByEvent_def memoized_def memoize_def Let_def)

lemma isEventEnabled_memoOf:
  assumes "memoOf fs m"
  shows "fst (isEventEnabled ee fs e en m) =
           Inr (e \<in> ee \<or> (\<exists>d\<in>set fs. ftype d \<in> set en \<and> e \<in> set (events d)))"
    and "memoOf fs (snd (isEventEnabled ee fs e en m))"
proof -
  show "fst (isEventEnabled ee fs e en m) =
           Inr (e \<in> ee \<or> (\<exists>d\<in>set fs. ftype d \<in> set en \<and> e \<in> set (events d)))"
    using assms
    by (auto simp: isEventEnabled_def getFeatureTypesByEvent_memoOf getter_lookup enablingSet_def
          list_ex_iff)
  show "memoOf fs (snd (isEventEnabled ee fs e en m))"
    using assms
    by (auto simp: isEventEnabled_def getFeatureTypesByEvent_memoOf memoOf_def split: option.splits)
qed

lemma isEventEnabled_calls_memoOf:
  "memoOf fs m \<Longrightarrow> memoOf fs (isEventEnabled_calls ee fs calls m)"
proof (induction calls arbitrary: m)
  case Nil
  then show ?case by (simp add: isEventEnabled_calls_def)
next
  case (Cons c calls)
  obtain e en where c: "c = (e, en)" by (cases c)
  have "isEventEnabled_calls ee fs (c # calls) m =
          isEventEnabled_calls ee fs calls (snd (isEventEnabled ee fs e en m))"
    by (simp add: isEventEnabled_calls_def c)
  with Cons show ?case
    by (simp add: isEventEnabled_memoOf(2))
qed

lemma memoOf_memoize: "memoOf fs memoize"
  by (simp add: memoOf_def)

text \<open>
  Claim C1. For every event \<open>e\<close> and feature list \<open>fs\<close>, after any earlier calls,
  \<open>isEventEnabled e fs\<close> returns true exactly when \<open>e\<close> is always enabled or occurs in
  the event list of a feature definition whose type is in \<open>fs\<close>. In particular an event
  that is neither always enabled nor listed by any feature definition is refused for every
  feature list, the list of all the registry's feature types included.
\<close>

theorem isEventEnabled_iff_unlocked:
  "fst (isEventEnabled enabledEvents features e fs
          (isEventEnabled_calls enabledEvents features earlier memoize)) =
     Inr (e \<in> enabledEvents \<or> (\<exists>d\<in>set features. ftype d \<in> set fs \<and> e \<in> set (events d)))
   \<and> (e \<notin> enabledEvents \<and> (\<forall>d\<in>set features. e \<notin> set (events d)) \<longrightarrow>
        (\<forall>fs'. fst (isEventEnabled enabledEvents features e fs'
                  (isEventEnabled_calls enabledEvents features earlier memoize)) = Inr False)
        \<and> fst (isEventEnabled enabledEvents features e (map ftype features)
                  (isEventEnabled_calls enabledEvents features earlier memoize)) = Inr False)"
proof -
  have ok: "memoOf features (isEventEnabled_calls enabledEvents features earlier memoize)"
    by (rule isEventEnabled_calls_memoOf [OF memoOf_memoize])
  show ?thesis
    by (auto simp: isEventEnabled_memoOf(1) [OF ok])
qed

theorem isEventEnabled_iff_unlocked_witness:
  "''custom_widget_event'' \<notin> {''context_change''}
   \<and> ''custom_widget_event'' \<notin> set (concat (map events
          [\<lparr>ftype = ''modals'', events = [''modal_close'', ''modal_action'']\<rparr>,
           \<lparr>ftype = ''dashboard_cog_menu'', events = [''dashboard_cog_menu_click'']\<rparr>]))
   \<and> fst (isEventEnabled {''context_change''}
            [\<lparr>ftype = ''modals'', events = [''modal_close'', ''modal_action'']\<rparr>,
             \<lparr>ftype = ''dashboard_cog_menu'', events = [''dashboard_cog_menu_click'']\<rparr>]
            ''custom_widget_event'' [''modals'', ''dashboard_cog_menu'']
            (isEventEnabled_calls {''context_change''}
               [\<lparr>ftype = ''modals'', events = [''modal_close'', ''modal_action'']\<rparr>,
                \<lparr>ftype = ''dashboard_cog_menu'', events = [''dashboard_cog_menu_click'']\<rparr>]
               [(''modal_close'', [''modals''])] memoize)) = Inr False"
  using isEventEnabled_iff_unlocked [of "{''context_change''}"
      "[\<lparr>ftype = ''modals'', events = [''modal_close'', ''modal_action'']\<rparr>,
        \<lparr>ftype = ''dashboard_cog_menu'', events = [''dashboard_cog_menu_click'']\<rparr>]"
      "''custom_widget_event''" "[''modals'', ''dashboard_cog_menu'']" "[(''modal_close'', [''modals''])]"]
  by simp

section \<open>Memoization\<close>

lemma getFeatureTypesByEvent_calls_executed:
  "getFeatureTypesByEvent_calls rs \<lparr>executed = True, value = Some v\<rparr> = replicate (length rs) (Some v)"
  by (induction rs) (simp_all add: getFeatureTypesByEvent_def memoized_def Let_def)

text \<open>
  Claim C8. The reverse map is computed by the first call of \<open>getFeatureTypesByEvent\<close>
  and never again: every call of a run returns what the getter gave on the registry of the
  first call, whatever the registry is at the later calls. Under a registry that does not
  change, every call returns what the unmemoized getter returns, and so does a call made
  after any run of \<open>isEventEnabled\<close> calls.
\<close>

theorem getFeatureTypesByEvent_computed_once:
  "getFeatureTypesByEvent_calls (features # later) memoize =
     replicate (Suc (length later)) (Some (featureTypesByEventGetter features))
   \<and> getFeatureTypesByEvent_calls (replicate n features) memoize =
       replicate n (Some (featureTypesByEventGetter features))
   \<and> fst (getFeatureTypesByEvent features
            (isEventEnabled_calls enabledEvents features calls memoize)) =
       Some (featureTypesByEventGetter features)"
proof -
  have first: "getFeatureTypesByEvent_calls (r # rs) memoize =
      replicate (Suc (length rs)) (Some (featureTypesByEventGetter r))" for r :: "('a, 'b) FeatureDefinition list" and rs
    by (simp add: getFeatureTypesByEvent_def memoized_def memoize_def Let_def
          getFeatureTypesByEvent_calls_executed)
  have pure: "getFeatureTypesByEvent_calls (replicate n features) memoize =
       replicate n (Some (featureTypesByEventGetter features))"
  proof (cases n)
    case 0
    then show ?thesis by simp
  next
    case (Suc k)
    then show ?thesis using first [of features "replicate k features"] by simp
  qed
  have ok: "memoOf features (isEventEnabled_calls enabledEvents features calls memoize)"
    by (rule isEventEnabled_calls_memoOf [OF memoOf_memoize])
  show ?thesis
    using first [of features later] pure getFeatureTypesByEvent_memoOf [OF ok] by simp
qed

theorem getFeatureTypesByEvent_computed_once_witness:
  "getFeatureTypesByEvent_calls
     [[\<lparr>ftype = ''modals'', events = [''modal_close'']\<rparr>], []] memoize =
     [Some (featureTypesByEventGetter [\<lparr>ftype = ''modals'', events = [''modal_close'']\<rparr>]),
      Some (featureTypesByEventGetter [\<lparr>ftype = ''modals'', events = [''modal_close'']\<rparr>])]"
  using getFeatureTypesByEvent_computed_once
    [of "[\<lparr>ftype = ''modals'', events = [''modal_close'']\<rparr>]" "[[]]"]
  by simp

section \<open>Key validation\<close>

text \<open>
  Claim C10. On a string \<open>validateKey\<close> never throws and returns whether the string is
  non-empty. On any other argument it never returns false: it throws exactly when the
  argument's \<open>key\<close> field is absent or falsy (an empty-string key included) and
  returns true otherwise.
\<close>

theorem validateKey_by_shape:
  "validateKey (JStr s) = Inr (s \<noteq> [])
   \<and> ((\<forall>s'. v \<noteq> JStr s') \<longrightarrow>
        validateKey v \<noteq> Inr False
        \<and> (isl (validateKey v) \<longleftrightarrow> keyAbsentOrFalsy v)
        \<and> (\<not> keyAbsentOrFalsy v \<longrightarrow> validateKey v = Inr True))"
  by (cases v)
    (auto simp: validateKey_def isDefinitionWithKey_def keyAbsentOrFalsy_def split: option.splits)

theorem validateKey_by_shape_witness:
  "(\<forall>s'. JObj [(''key'', JStr [])] \<noteq> JStr s')
   \<and> validateKey (JStr ''my-modal'') = Inr True
   \<and> isl (validateKey (JObj [(''key'', JStr [])]))
   \<and> keyAbsentOrFalsy (JObj [(''key'', JStr [])])"
  using validateKey_by_shape [of "''my-modal''" "JObj [(''key'', JStr [])]"]
  by (simp add: keyAbsentOrFalsy_def)


text \<open>
  Claim C7. For every open-request payload that is not a string and whose \<open>key\<close>
  field is missing (or falsy), \<open>validateKey\<close> throws (the missing-key error, or a
  TypeError when the payload itself is undefined or null) and the open operation rejects
  with that error as a validation error, whatever the features of the context, the calls
  made on the transport's request primitive being the same as before: none is made.
\<close>

theorem modal_open_validates_first:
  assumes "\<forall>s. payload \<noteq> JStr s" and "keyAbsentOrFalsy payload"
  shows "validateKey payload =
           Inl (if payload = JUndefined \<or> payload = JNull then TypeError
                else Error missingKeyMessage)
       \<and> modal_open OPEN_MODAL MODALS features respond payload requests =
           (Inl (ValidationError (if payload = JUndefined \<or> payload = JNull then TypeError
                                  else Error missingKeyMessage)),
            requests)"
proof -
  from assms have "validateKey payload =
      Inl (if payload = JUndefined \<or> payload = JNull then TypeError else Error missingKeyMessage)"
    by (cases payload)
       (auto simp: validateKey_def isDefinitionWithKey_def keyAbsentOrFalsy_def split: option.splits)
  then show ?thesis by (simp add: modal_open_def)
qed

theorem modal_open_validates_first_witness:
  "(\<forall>s. JObj [(''source'', JStr ''modal.html'')] \<noteq> JStr s)
   \<and> keyAbsentOrFalsy (JObj [(''source'', JStr ''modal.html'')])
   \<and> modal_open ''open_modal'' ''modals'' [''modals''] (\<lambda>r d. JNull)
        (JObj [(''source'', JStr ''modal.html'')]) []
      = (Inl (ValidationError (Error missingKeyMessage)), [])"
proof -
  have a: "\<forall>s. JObj [(''source'', JStr ''modal.html'')] \<noteq> JStr s" by simp
  have b: "keyAbsentOrFalsy (JObj [(''source'', JStr ''modal.html'')])"
    by (simp add: keyAbsentOrFalsy_def)
  show ?thesis
    using modal_open_validates_first [OF a b, of "''open_modal''" "''modals''" "[''modals'']"
        "\<lambda>r d. JNull" "[]"] a b
    by simp
qed


section \<open>Deferred\<close>

lemma resolve_settled:
  "cell st a \<noteq> Pending \<Longrightarrow> cell (resolve d t st) a = cell st a"
  by (auto simp: resolve_def split: promise.splits)

lemma reject_settled:
  "cell st a \<noteq> Pending \<Longrightarrow> cell (reject d t st) a = cell st a"
  by (auto simp: reject_def split: promise.splits)

lemma resolve_pending: "cell st d = Pending \<Longrightarrow> cell (resolve d t st) d = Fulfilled t"
  by (simp add: resolve_def)

lemma settleCalls_settled:
  "cell st a \<noteq> Pending \<Longrightarrow> cell (settleCalls calls st) a = cell st a"
proof (induction calls arbitrary: st)
  case Nil
  show ?case by (simp add: settleCalls_def)
next
  case (Cons x calls)
  obtain b d t where x: "x = (b, d, t)" by (cases x)
  let ?st = "if b then resolve d t st else reject d t st"
  have step: "settleCalls (x # calls) st = settleCalls calls ?st"
    by (simp add: settleCalls_def x)
  have keep: "cell ?st a = cell st a"
    using Cons.prems by (simp add: resolve_settled reject_settled)
  with Cons.prems have "cell ?st a \<noteq> Pending" by simp
  then have "cell (settleCalls calls ?st) a = cell ?st a" by (rule Cons.IH)
  with step keep show ?case by simp
qed

section \<open>The client facade\<close>

lemma init_resume_fields [simp]:
  "context (init_resume ctx c) = context c"
  "handshake (init_resume ctx c) = handshake c"
  "capabilityManagers (init_resume ctx c) = capabilityManagers c"
  by (simp_all add: init_resume_def)

lemma fold_init_resume_fields [simp]:
  "context (fold init_resume xs c) = context c"
  "handshake (fold init_resume xs c) = handshake c"
  by (induction xs arbitrary: c) simp_all

lemma init_resume_settled:
  "cell (promises c) a \<noteq> Pending \<Longrightarrow> cell (promises (init_resume ctx c)) a = cell (promises c) a"
  by (simp add: init_resume_def resolve_settled)

lemma fold_init_resume_settled:
  "cell (promises c) a \<noteq> Pending \<Longrightarrow>
     cell (promises (fold init_resume xs c)) a = cell (promises c) a"
proof (induction xs arbitrary: c)
  case Nil
  show ?case by simp
next
  case (Cons x xs)
  have "cell (promises (init_resume x c)) a = cell (promises c) a"
    using Cons.prems by (rule init_resume_settled)
  moreover from this Cons.prems have "cell (promises (init_resume x c)) a \<noteq> Pending" by simp
  then have "cell (promises (fold init_resume xs (init_resume x c))) a =
      cell (promises (init_resume x c)) a" by (rule Cons.IH)
  ultimately show ?case by simp
qed

lemma on_fields [simp]:
  "context (snd (on e h c)) = context c"
  "handshake (snd (on e h c)) = handshake c"
  "promises (snd (on e h c)) = promises c"
  by (simp_all add: on_def split: option.splits prod.splits)

lemma triggerEvent_fields [simp]:
  "context (snd (triggerEvent e d c)) = context c"
  "handshake (snd (triggerEvent e d c)) = handshake c"
  "promises (snd (triggerEvent e d c)) = promises c"
  by (simp_all add: triggerEvent_def Let_def split: option.splits prod.splits)

lemma handleEvent_fields [simp]:
  "context (snd (handleEvent e d c)) = context c"
  "handshake (snd (handleEvent e d c)) = handshake c"
  "promises (snd (handleEvent e d c)) = promises c"
  by (simp_all add: handleEvent_def split: option.splits prod.splits)

lemma step_context [simp]: "context (step ev c) = context c"
  by (cases ev) (simp_all add: handshakeFulfilled_def handshakeRejected_def init_def split: promise.splits)

lemma run_context [simp]: "context (run es c) = context c"
  unfolding run_def by (induction es arbitrary: c) simp_all

lemma step_settled:
  "cell (promises c) a \<noteq> Pending \<Longrightarrow> cell (promises (step ev c)) a = cell (promises c) a"
  by (cases ev)
     (simp_all add: handshakeFulfilled_def handshakeRejected_def init_def
        init_resume_settled fold_init_resume_settled split: promise.splits)

lemma run_settled:
  "cell (promises c) a \<noteq> Pending \<Longrightarrow> cell (promises (run es c)) a = cell (promises c) a"
proof (induction es arbitrary: c)
  case Nil
  show ?case by (simp add: run_def)
next
  case (Cons ev es)
  have one: "cell (promises (step ev c)) a = cell (promises c) a"
    using Cons.prems by (rule step_settled)
  with Cons.prems have "cell (promises (step ev c)) a \<noteq> Pending" by simp
  then have "cell (promises (run es (step ev c))) a = cell (promises (step ev c)) a"
    by (rule Cons.IH)
  with one show ?case by (simp add: run_def)
qed

lemma run_append: "run (es @ es') c = run es' (run es c)"
  by (simp add: run_def)

lemma awaitPromise_settled:
  "awaitPromise st p = Some r \<Longrightarrow> cell st p \<noteq> Pending"
  by (auto simp: awaitPromise_def)

lemma run_await:
  assumes "awaitPromise (promises c) p = Some r"
  shows "awaitPromise (promises (run es c)) p = Some r"
proof -
  have "cell (promises (run es c)) p = cell (promises c) p"
    using awaitPromise_settled [OF assms] by (rule run_settled)
  with assms show ?thesis by (simp add: awaitPromise_def)
qed

lemma find_first_owner:
  "\<forall>x\<in>set before. \<not> P x \<Longrightarrow> P m \<Longrightarrow> List.find P (before @ m # after) = Some m"
  by (induction before) simp_all

lemma find_no_owner: "\<forall>x\<in>set xs. \<not> P x \<Longrightarrow> List.find P xs = None"
  by (simp add: find_None_iff)

lemma find_Some_owner: "List.find P xs = Some m \<Longrightarrow> m \<in> set xs \<and> P m"
  by (auto simp: find_Some_iff)

text \<open>
  Claim C4, amended. \<open>on\<close> raises no error of its own. If no manager lists the event
  type in \<open>eventsToSubscribe\<close>, it logs one error and returns normally an unsubscribe
  function that does nothing, leaving everything else as it was. Otherwise it delegates to
  the \<open>subscribeHandler\<close> of the first manager listing it and its outcome is that
  call's: the unsubscribe function the manager returns, or the error the manager throws.
  So every error \<open>on\<close> raises was thrown by the \<open>subscribeHandler\<close> of a manager that
  lists the event type.
\<close>

theorem on_logs_or_delegates:
  "((\<forall>m\<in>set (capabilityManagers c). eventType \<notin> set (eventsToSubscribe m)) \<longrightarrow>
      on eventType handler c =
        (Inr (\<lambda>w. w), c\<lparr>logger := logger c @ [LoggerError ''Unknown event type'']\<rparr>))
   \<and> (capabilityManagers c = before @ m # after
        \<and> (\<forall>m'\<in>set before. eventType \<notin> set (eventsToSubscribe m'))
        \<and> eventType \<in> set (eventsToSubscribe m) \<longrightarrow>
      on eventType handler c =
        (fst (manager_subscribeHandler m eventType handler (world c)),
         c\<lparr>world := snd (manager_subscribeHandler m eventType handler (world c))\<rparr>))
   \<and> (fst (on eventType handler c) = Inl err \<longrightarrow>
        (\<exists>m\<in>set (capabilityManagers c). eventType \<in> set (eventsToSubscribe m)
           \<and> fst (manager_subscribeHandler m eventType handler (world c)) = Inl err))"
proof (intro conjI impI)
  assume "\<forall>m\<in>set (capabilityManagers c). eventType \<notin> set (eventsToSubscribe m)"
  then have "getManagerByEventToSubscribeType c eventType = None"
    unfolding getManagerByEventToSubscribeType_def by (intro find_no_owner) simp
  then show "on eventType handler c =
        (Inr (\<lambda>w. w), c\<lparr>logger := logger c @ [LoggerError ''Unknown event type'']\<rparr>)"
    by (simp add: on_def)
next
  assume a: "capabilityManagers c = before @ m # after
        \<and> (\<forall>m'\<in>set before. eventType \<notin> set (eventsToSubscribe m'))
        \<and> eventType \<in> set (eventsToSubscribe m)"
  then have "getManagerByEventToSubscribeType c eventType = Some m"
    unfolding getManagerByEventToSubscribeType_def by (simp add: find_first_owner)
  then show "on eventType handler c =
        (fst (manager_subscribeHandler m eventType handler (world c)),
         c\<lparr>world := snd (manager_subscribeHandler m eventType handler (world c))\<rparr>)"
    by (simp add: on_def split: prod.splits)
next
  assume thrown: "fst (on eventType handler c) = Inl err"
  show "\<exists>m\<in>set (capabilityManagers c). eventType \<in> set (eventsToSubscribe m)
           \<and> fst (manager_subscribeHandler m eventType handler (world c)) = Inl err"
  proof (cases "getManagerByEventToSubscribeType c eventType")
    case None
    with thrown show ?thesis by (simp add: on_def)
  next
    case (Some owner)
    then have "owner \<in> set (capabilityManagers c) \<and> eventType \<in> set (eventsToSubscribe owner)"
      unfolding getManagerByEventToSubscribeType_def by (rule find_Some_owner)
    moreover from thrown Some
    have "fst (manager_subscribeHandler owner eventType handler (world c)) = Inl err"
      by (auto simp: on_def split: prod.splits)
    ultimately show ?thesis by blast
  qed
qed

theorem on_logs_or_delegates_witness:
  "''unknown'' \<notin> set (concat (map eventsToSubscribe (capabilityManagers exampleClient)))
   \<and> on ''unknown'' ''h'' exampleClient =
       (Inr (\<lambda>w. w), exampleClient\<lparr>logger := [LoggerError ''Unknown event type'']\<rparr>)
   \<and> capabilityManagers exampleClient = [modalManager] @ menuManager # []
   \<and> ''dashboard_cog_menu_click'' \<notin> set (eventsToSubscribe modalManager)
   \<and> ''dashboard_cog_menu_click'' \<in> set (eventsToSubscribe menuManager)
   \<and> world (snd (on ''dashboard_cog_menu_click'' ''h'' exampleClient)) =
       [(''dashboard_cog_menu_click'', JStr ''h'')]
   \<and> \<not> isl (fst (on ''dashboard_cog_menu_click'' ''h'' exampleClient))
   \<and> fst (on ''modal_close'' ''h'' throwingClient) = Inl TypeError
   \<and> ''modal_close'' \<in> set (eventsToSubscribe throwingManager)
   \<and> fst (manager_subscribeHandler throwingManager ''modal_close'' ''h'' (world throwingClient))
       = Inl TypeError"
proof -
  have managers: "capabilityManagers exampleClient = [modalManager] @ menuManager # []"
    by (simp add: exampleClient_def new_DDClient_def defer_def)
  have unknown: "\<forall>m\<in>set (capabilityManagers exampleClient). ''unknown'' \<notin> set (eventsToSubscribe m)"
    by (simp add: managers modalManager_def menuManager_def)
  have earlier: "\<forall>m'\<in>set [modalManager]. ''dashboard_cog_menu_click'' \<notin> set (eventsToSubscribe m')"
    by (simp add: modalManager_def)
  have owner: "''dashboard_cog_menu_click'' \<in> set (eventsToSubscribe menuManager)"
    by (simp add: menuManager_def)
  have empty: "logger exampleClient = [] \<and> world exampleClient = []"
    by (simp add: exampleClient_def new_DDClient_def defer_def)
  have thrown: "fst (on ''modal_close'' ''h'' throwingClient) = Inl TypeError"
    by (simp add: on_def getManagerByEventToSubscribeType_def throwingClient_def
          throwingManager_def new_DDClient_def defer_def)
  have only: "capabilityManagers throwingClient = [throwingManager]"
    by (simp add: throwingClient_def new_DDClient_def defer_def)
  show ?thesis
    using on_logs_or_delegates [where c = exampleClient and eventType = "''unknown''"
        and before = "[modalManager]" and m = menuManager and after = "[]" and handler = "''h''"]
      on_logs_or_delegates [where c = exampleClient and eventType = "''dashboard_cog_menu_click''"
        and before = "[modalManager]" and m = menuManager and after = "[]" and handler = "''h''"]
      on_logs_or_delegates [where c = throwingClient and eventType = "''modal_close''"
        and handler = "''h''" and err = TypeError]
      managers unknown earlier owner empty thrown only
    by (simp add: menuManager_def throwingManager_def)
qed

text \<open>
  The claim as it was stated, that \<open>on\<close> never throws for every event type and handler,
  fails where the owning manager's \<open>subscribeHandler\<close> throws: \<open>on\<close> has no handler
  around the call and the error reaches the caller.
\<close>

theorem on_throws_with_throwing_manager:
  "fst (on ''modal_close'' ''handler'' throwingClient) = Inl TypeError"
  by (simp add: on_def getManagerByEventToSubscribeType_def throwingClient_def
        throwingManager_def new_DDClient_def defer_def)

text \<open>
  Claim C5. If no manager lists the event type in \<open>eventsToTrigger\<close>,
  \<open>triggerEvent\<close> logs one error and does nothing else: what the managers and the
  transport hold is unchanged. Otherwise it calls \<open>triggerEvent\<close> of the first manager
  listing it, with the data given, or with the empty object when the data is omitted.
\<close>

theorem triggerEvent_logs_or_delegates:
  "((\<forall>m\<in>set (capabilityManagers c). eventType \<notin> set (eventsToTrigger m)) \<longrightarrow>
      triggerEvent eventType dataArg c =
        (Inr (), c\<lparr>logger := logger c @ [LoggerError ''Unknown event type'']\<rparr>)
      \<and> world (snd (triggerEvent eventType dataArg c)) = world c)
   \<and> (capabilityManagers c = before @ m # after
        \<and> (\<forall>m'\<in>set before. eventType \<notin> set (eventsToTrigger m'))
        \<and> eventType \<in> set (eventsToTrigger m) \<longrightarrow>
      (dataArg \<noteq> JUndefined \<longrightarrow>
         triggerEvent eventType dataArg c =
           (fst (manager_triggerEvent m eventType dataArg (world c)),
            c\<lparr>world := snd (manager_triggerEvent m eventType dataArg (world c))\<rparr>))
      \<and> triggerEvent eventType JUndefined c =
           (fst (manager_triggerEvent m eventType (JObj []) (world c)),
            c\<lparr>world := snd (manager_triggerEvent m eventType (JObj []) (world c))\<rparr>))"
proof (intro conjI impI)
  assume "\<forall>m\<in>set (capabilityManagers c). eventType \<notin> set (eventsToTrigger m)"
  then have none: "getManagerByEventToTriggerType c eventType = None"
    unfolding getManagerByEventToTriggerType_def by (intro find_no_owner) simp
  then show "triggerEvent eventType dataArg c =
        (Inr (), c\<lparr>logger := logger c @ [LoggerError ''Unknown event type'']\<rparr>)"
    by (simp add: triggerEvent_def)
  from none show "world (snd (triggerEvent eventType dataArg c)) = world c"
    by (simp add: triggerEvent_def)
next
  assume a: "capabilityManagers c = before @ m # after
        \<and> (\<forall>m'\<in>set before. eventType \<notin> set (eventsToTrigger m'))
        \<and> eventType \<in> set (eventsToTrigger m)"
  then have owner: "getManagerByEventToTriggerType c eventType = Some m"
    unfolding getManagerByEventToTriggerType_def by (simp add: find_first_owner)
  then show "triggerEvent eventType JUndefined c =
           (fst (manager_triggerEvent m eventType (JObj []) (world c)),
            c\<lparr>world := snd (manager_triggerEvent m eventType (JObj []) (world c))\<rparr>)"
    by (simp add: triggerEvent_def split: prod.splits)
  assume "dataArg \<noteq> JUndefined"
  with owner show "triggerEvent eventType dataArg c =
           (fst (manager_triggerEvent m eventType dataArg (world c)),
            c\<lparr>world := snd (manager_triggerEvent m eventType dataArg (world c))\<rparr>)"
    by (simp add: triggerEvent_def split: prod.splits)
qed

theorem triggerEvent_logs_or_delegates_witness:
  "''unknown'' \<notin> set (concat (map eventsToTrigger (capabilityManagers exampleClient)))
   \<and> triggerEvent ''unknown'' (JStr ''x'') exampleClient =
       (Inr (), exampleClient\<lparr>logger := [LoggerError ''Unknown event type'']\<rparr>)
   \<and> capabilityManagers exampleClient = [modalManager] @ menuManager # []
   \<and> ''reload_frame'' \<notin> set (eventsToTrigger modalManager)
   \<and> ''reload_frame'' \<in> set (eventsToTrigger menuManager)
   \<and> world (snd (triggerEvent ''reload_frame'' JUndefined exampleClient)) =
       [(''reload_frame'', JObj [])]
   \<and> JStr ''x'' \<noteq> JUndefined
   \<and> world (snd (triggerEvent ''reload_frame'' (JStr ''x'') exampleClient)) =
       [(''reload_frame'', JStr ''x'')]"
proof -
  have managers: "capabilityManagers exampleClient = [modalManager] @ menuManager # []"
    by (simp add: exampleClient_def new_DDClient_def defer_def)
  have unknown: "\<forall>m\<in>set (capabilityManagers exampleClient). ''unknown'' \<notin> set (eventsToTrigger m)"
    by (simp add: managers modalManager_def menuManager_def)
  have earlier: "\<forall>m'\<in>set [modalManager]. ''reload_frame'' \<notin> set (eventsToTrigger m')"
    by (simp add: modalManager_def)
  have owner: "''reload_frame'' \<in> set (eventsToTrigger menuManager)"
    by (simp add: menuManager_def)
  have empty: "logger exampleClient = [] \<and> world exampleClient = []"
    by (simp add: exampleClient_def new_DDClient_def defer_def)
  show ?thesis
    using triggerEvent_logs_or_delegates [where c = exampleClient and eventType = "''unknown''"
        and dataArg = "JStr ''x''" and before = "[modalManager]" and m = menuManager
        and after = "[]"]
      triggerEvent_logs_or_delegates [where c = exampleClient and eventType = "''reload_frame''"
        and dataArg = "JStr ''x''" and before = "[modalManager]" and m = menuManager
        and after = "[]"]
      managers unknown earlier owner empty
    by (simp add: menuManager_def)
qed

lemma run_Cons: "run (ev # es) c = run es (step ev c)"
  by (simp add: run_def)

lemma step_handshakeFirst: "handshakeFirst c \<Longrightarrow> handshakeFirst (step ev c)"
  by (cases ev)
     (auto simp: handshakeFirst_def handshakeFulfilled_def handshakeRejected_def init_def
        split: promise.splits)

lemma run_handshakeFirst: "handshakeFirst c \<Longrightarrow> handshakeFirst (run es c)"
  unfolding run_def by (induction es arbitrary: c) (simp_all add: step_handshakeFirst)

lemma new_handshakeFirst: "handshakeFirst (new_DDClient ms w)"
  by (simp add: handshakeFirst_def new_DDClient_def defer_def emptyStore_def)

text \<open>
  Claim C6. In every state a new client reaches, whatever the order of events, the
  context is resolved only if the handshake is fulfilled. An \<open>init\<close> call made while
  the handshake is pending leaves every promise as it was, and its context is resolved
  when the handshake is fulfilled.
\<close>

theorem init_resolves_only_after_handshake:
  "(cell (promises (run es (new_DDClient managers w)))
        (context (run es (new_DDClient managers w))) \<noteq> Pending
      \<longrightarrow> handshake (run es (new_DDClient managers w)) = Fulfilled ())
   \<and> (handshake c = Pending \<longrightarrow> promises (init ctx c) = promises c)
   \<and> (handshake c = Pending \<and> awaitingHandshake c = [] \<and> cell (promises c) (context c) = Pending
      \<longrightarrow> awaitPromise (promises (handshakeFulfilled (init ctx c))) (getContext c) = Some (Inr ctx))"
proof (intro conjI impI)
  assume "cell (promises (run es (new_DDClient managers w)))
        (context (run es (new_DDClient managers w))) \<noteq> Pending"
  with run_handshakeFirst [OF new_handshakeFirst, of es managers w]
  show "handshake (run es (new_DDClient managers w)) = Fulfilled ()"
    by (simp add: handshakeFirst_def)
next
  assume "handshake c = Pending"
  then show "promises (init ctx c) = promises c" by (simp add: init_def)
next
  assume "handshake c = Pending \<and> awaitingHandshake c = [] \<and> cell (promises c) (context c) = Pending"
  then show "awaitPromise (promises (handshakeFulfilled (init ctx c))) (getContext c) = Some (Inr ctx)"
    by (simp add: init_def handshakeFulfilled_def init_resume_def resolve_def awaitPromise_def
          getContext_def)
qed

theorem init_resolves_only_after_handshake_witness:
  "cell (promises (run [HostInit (JStr ''ctx''), HandshakeFulfilled] exampleClient))
        (context (run [HostInit (JStr ''ctx''), HandshakeFulfilled] exampleClient)) \<noteq> Pending
   \<and> handshake (run [HostInit (JStr ''ctx''), HandshakeFulfilled] exampleClient) = Fulfilled ()
   \<and> handshake exampleClient = Pending
   \<and> awaitingHandshake exampleClient = []
   \<and> cell (promises exampleClient) (context exampleClient) = Pending
   \<and> promises (init (JStr ''ctx'') exampleClient) = promises exampleClient
   \<and> awaitPromise (promises (handshakeFulfilled (init (JStr ''ctx'') exampleClient)))
        (getContext exampleClient) = Some (Inr (JStr ''ctx''))"
proof -
  have start: "handshake exampleClient = Pending \<and> awaitingHandshake exampleClient = []
      \<and> cell (promises exampleClient) (context exampleClient) = Pending"
    by (simp add: exampleClient_def new_DDClient_def defer_def emptyStore_def)
  have resolved: "cell (promises (run [HostInit (JStr ''ctx''), HandshakeFulfilled] exampleClient))
        (context (run [HostInit (JStr ''ctx''), HandshakeFulfilled] exampleClient)) \<noteq> Pending"
    by (simp add: exampleClient_def new_DDClient_def defer_def emptyStore_def run_def init_def
          handshakeFulfilled_def init_resume_def resolve_def)
  show ?thesis
    using init_resolves_only_after_handshake
        [where es = "[HostInit (JStr ''ctx''), HandshakeFulfilled]"
          and managers = "[modalManager, menuManager]" and w = "[]"
          and c = exampleClient and ctx = "JStr ''ctx''"]
      start resolved
    by (simp add: exampleClient_def)
qed

text \<open>
  Claim C3. If \<open>getContext\<close> is called while the context is pending and again once
  it is resolved with \<open>v\<close>, the promise of the first call yields \<open>v\<close> too, and after
  any further events both that promise and the one \<open>getContext\<close> then returns still
  yield \<open>v\<close>.
\<close>

theorem getContext_same_before_and_after:
  assumes before: "awaitPromise (promises c) (getContext c) = None"
    and after: "awaitPromise (promises (run es c)) (getContext (run es c)) = Some (Inr v)"
  shows "awaitPromise (promises (run es c)) (getContext c) = Some (Inr v)
       \<and> (\<forall>es'. awaitPromise (promises (run es' (run es c))) (getContext c) = Some (Inr v)
              \<and> awaitPromise (promises (run es' (run es c))) (getContext (run es' (run es c)))
                  = Some (Inr v))"
proof -
  have same: "getContext (run es c) = getContext c" for es
    by (simp add: getContext_def)
  from after have now: "awaitPromise (promises (run es c)) (getContext c) = Some (Inr v)"
    by (simp add: same)
  have later: "awaitPromise (promises (run es' (run es c))) (getContext c) = Some (Inr v)" for es'
    using now by (rule run_await)
  show ?thesis
    using now later by (simp add: getContext_def)
qed

theorem getContext_same_before_and_after_witness:
  "awaitPromise (promises (new_DDClient [] () :: (string, unit, unit) DDClient))
        (getContext (new_DDClient [] () :: (string, unit, unit) DDClient)) = None
   \<and> awaitPromise
        (promises (run [HostInit (JStr ''ctx''), HandshakeFulfilled]
                    (new_DDClient [] () :: (string, unit, unit) DDClient)))
        (getContext (run [HostInit (JStr ''ctx''), HandshakeFulfilled]
                    (new_DDClient [] () :: (string, unit, unit) DDClient)))
       = Some (Inr (JStr ''ctx''))
   \<and> awaitPromise
        (promises (run [HostInit (JStr ''ctx''), HandshakeFulfilled]
                    (new_DDClient [] () :: (string, unit, unit) DDClient)))
        (getContext (new_DDClient [] () :: (string, unit, unit) DDClient))
       = Some (Inr (JStr ''ctx''))"
proof -
  let ?c = "new_DDClient [] () :: (string, unit, unit) DDClient"
  let ?es = "[HostInit (JStr ''ctx''), HandshakeFulfilled] :: (string, unit) event list"
  have b: "awaitPromise (promises ?c) (getContext ?c) = None"
    by (simp add: new_DDClient_def defer_def emptyStore_def awaitPromise_def getContext_def)
  have a: "awaitPromise (promises (run ?es ?c)) (getContext (run ?es ?c)) = Some (Inr (JStr ''ctx''))"
    by (simp add: new_DDClient_def defer_def emptyStore_def awaitPromise_def getContext_def
          run_def init_def handshakeFulfilled_def init_resume_def resolve_def)
  show ?thesis
    using getContext_same_before_and_after [OF b a] b a by simp
qed


text \<open>
  Claim C9. A Deferred is settled by its first resolution: after \<open>resolve\<close> with
  \<open>v\<close> on a new Deferred, any run of later \<open>resolve\<close> and \<open>reject\<close> calls leaves
  it fulfilled with \<open>v\<close>, which every await yields. Hence once the host's \<open>init\<close> has
  resolved the context of a client with \<open>v\<close>, no later event, a second \<open>init\<close>
  included, changes what \<open>getContext\<close> yields.
\<close>

theorem deferred_first_resolution_wins:
  "cell (settleCalls calls (resolve (fst (defer st)) v (snd (defer st)))) (fst (defer st)) = Fulfilled v
   \<and> awaitPromise (settleCalls calls (resolve (fst (defer st)) v (snd (defer st)))) (fst (defer st))
       = Some (Inr v)
   \<and> (handshake c = Fulfilled () \<and> awaitPromise (promises c) (getContext c) = None \<longrightarrow>
        awaitPromise (promises (run (HostInit v # es) c)) (getContext (run (HostInit v # es) c))
          = Some (Inr v))"
proof -
  let ?d = "fst (defer st)"
  let ?st = "resolve ?d v (snd (defer st))"
  have "cell (snd (defer st)) ?d = Pending" by (simp add: defer_def)
  then have one: "cell ?st ?d = Fulfilled v" by (rule resolve_pending)
  then have "cell (settleCalls calls ?st) ?d = cell ?st ?d"
    by (intro settleCalls_settled) simp
  with one have store: "cell (settleCalls calls ?st) ?d = Fulfilled v" by simp
  have client: "awaitPromise (promises (run (HostInit v # es) c)) (getContext (run (HostInit v # es) c))
          = Some (Inr v)"
    if h: "handshake c = Fulfilled ()" and p: "awaitPromise (promises c) (getContext c) = None"
  proof -
    from p have "cell (promises c) (context c) = Pending"
      by (simp add: awaitPromise_def getContext_def split: promise.splits)
    with h have "awaitPromise (promises (init v c)) (getContext c) = Some (Inr v)"
      by (simp add: init_def init_resume_def resolve_def awaitPromise_def getContext_def)
    then have "awaitPromise (promises (run es (init v c))) (getContext c) = Some (Inr v)"
      by (rule run_await)
    moreover have "context (init v c) = context c"
      using step_context [of "HostInit v" c] by simp
    ultimately show ?thesis by (simp add: run_Cons getContext_def)
  qed
  show ?thesis using store client by (simp add: awaitPromise_def)
qed

theorem deferred_first_resolution_wins_witness:
  "handshake (run [HandshakeFulfilled] exampleClient) = Fulfilled ()
   \<and> awaitPromise (promises (run [HandshakeFulfilled] exampleClient))
        (getContext (run [HandshakeFulfilled] exampleClient)) = None
   \<and> awaitPromise
        (promises (run (HostInit (JStr ''first'') # [HostInit (JStr ''second'')])
                    (run [HandshakeFulfilled] exampleClient)))
        (getContext (run (HostInit (JStr ''first'') # [HostInit (JStr ''second'')])
                    (run [HandshakeFulfilled] exampleClient)))
       = Some (Inr (JStr ''first''))
   \<and> cell (settleCalls [(True, 0, JStr ''second''), (False, 0, JStr ''third'')]
              (resolve (fst (defer (emptyStore :: jsval store))) (JStr ''first'')
                 (snd (defer (emptyStore :: jsval store)))))
        (fst (defer (emptyStore :: jsval store))) = Fulfilled (JStr ''first'')"
proof -
  have h: "handshake (run [HandshakeFulfilled] exampleClient) = Fulfilled ()"
    by (simp add: exampleClient_def new_DDClient_def defer_def emptyStore_def run_def
          handshakeFulfilled_def)
  have p: "awaitPromise (promises (run [HandshakeFulfilled] exampleClient))
        (getContext (run [HandshakeFulfilled] exampleClient)) = None"
    by (simp add: exampleClient_def new_DDClient_def defer_def emptyStore_def run_def
          handshakeFulfilled_def awaitPromise_def getContext_def)
  show ?thesis
    using deferred_first_resolution_wins
        [where calls = "[(True, 0, JStr ''second''), (False, 0, JStr ''third'')]"
          and st = "emptyStore :: jsval store" and v = "JStr ''first''"
          and c = "run [HandshakeFulfilled] exampleClient" and es = "[HostInit (JStr ''second'')]"]
      h p
    by simp
qed

text \<open>
  Claim C2, as the code has it. The claim says that a context-change event arriving after
  the initial context was resolved replaces the held context by its payload. The facade
  does not: \<open>handleEvent\<close> looks up a manager and logs or forwards, whatever the event
  type, and nothing assigns \<open>this.context\<close> after the constructor. Once the context is
  resolved with \<open>initial\<close>, \<open>getContext\<close> yields \<open>initial\<close> after any inbound event,
  for every event type and payload, and after any further events.
\<close>

theorem handleEvent_keeps_context:
  assumes "awaitPromise (promises c) (getContext c) = Some (Inr initial)"
  shows "awaitPromise (promises (run (HostHandleEvent eventType payload # es) c))
           (getContext (run (HostHandleEvent eventType payload # es) c))
         = Some (Inr initial)"
proof -
  have "awaitPromise (promises (run (HostHandleEvent eventType payload # es) c)) (getContext c)
      = Some (Inr initial)"
    using assms by (rule run_await)
  then show ?thesis by (simp add: getContext_def)
qed

text \<open>
  The scenario of the client test: the initial context is \<open>mockContext\<close>, the
  context-change payload is \<open>{data: 'new context'}\<close>; \<open>getContext\<close> still yields
  \<open>mockContext\<close>, not the payload.
\<close>

theorem handleEvent_keeps_context_witness:
  "awaitPromise
     (promises (run [HandshakeFulfilled, HostInit (mockContext (JStr ''dashboard_cog_menu''))]
                 exampleClient))
     (getContext (run [HandshakeFulfilled, HostInit (mockContext (JStr ''dashboard_cog_menu''))]
                 exampleClient))
     = Some (Inr (mockContext (JStr ''dashboard_cog_menu'')))
   \<and> awaitPromise
       (promises (run (HostHandleEvent ''context_change'' (JObj [(''data'', JStr ''new context'')]) # [])
          (run [HandshakeFulfilled, HostInit (mockContext (JStr ''dashboard_cog_menu''))]
             exampleClient)))
       (getContext (run (HostHandleEvent ''context_change'' (JObj [(''data'', JStr ''new context'')]) # [])
          (run [HandshakeFulfilled, HostInit (mockContext (JStr ''dashboard_cog_menu''))]
             exampleClient)))
     = Some (Inr (mockContext (JStr ''dashboard_cog_menu'')))
   \<and> mockContext (JStr ''dashboard_cog_menu'') \<noteq> JObj [(''data'', JStr ''new context'')]"
proof -
  let ?c = "run [HandshakeFulfilled, HostInit (mockContext (JStr ''dashboard_cog_menu''))]
              exampleClient"
  have r: "awaitPromise (promises ?c) (getContext ?c)
      = Some (Inr (mockContext (JStr ''dashboard_cog_menu'')))"
    by (simp add: exampleClient_def new_DDClient_def defer_def emptyStore_def awaitPromise_def
          getContext_def run_def init_def handshakeFulfilled_def init_resume_def resolve_def)
  have d: "mockContext (JStr ''dashboard_cog_menu'') \<noteq> JObj [(''data'', JStr ''new context'')]"
    by (simp add: mockContext_def)
  show ?thesis
    using handleEvent_keeps_context [OF r, of "''context_change''"
        "JObj [(''data'', JStr ''new context'')]" "[]"] r d
    by simp
qed

end
